theory Spec2Isabelle
  imports Main "HOL-Library.AList" "HOL-Library.Char_ord" "HOL-Library.List_Lexorder"
begin

section \<open>Plugin discovery and loading (yt\_dlp/plugins.py)\<close>

text \<open>
  A shallow embedding of \<^verbatim>\<open>src/yt_dlp/plugins.py\<close>. The Python runtime's services
  (the filesystem, zip archives, the import system) are parameters of the model; every
  raise of the source is a value of type \<open>exn\<close>; every mutated object (the finder's
  cache, \<^verbatim>\<open>sys.meta_path\<close>, \<^verbatim>\<open>sys.modules\<close>, the class dictionaries) is passed
  and returned explicitly.
\<close>

subsection \<open>Exceptions\<close>

text \<open>
  \<open>FileNotFoundError\<close> and \<open>ModuleNotFoundError\<close> are the two classes the source names
  in \<^verbatim>\<open>contextlib.suppress\<close>. \<open>Exception c\<close> is any other exception of class \<open>c\<close>
  that derives from Python's \<^verbatim>\<open>Exception\<close>; \<open>BaseException c\<close> is one that does not
  (\<^verbatim>\<open>SystemExit\<close>, \<^verbatim>\<open>KeyboardInterrupt\<close>), which \<^verbatim>\<open>except Exception\<close> lets through.
\<close>

datatype exn = FileNotFoundError | ModuleNotFoundError | Exception string | BaseException string

fun is_Exception :: "exn \<Rightarrow> bool" where
  "is_Exception (BaseException c) = False"
| "is_Exception e = True"

subsection \<open>Strings\<close>

text \<open>\<^verbatim>\<open>str.split(sep)\<close> for a one-character separator: \<open>n\<close> separators give \<open>n + 1\<close> pieces.\<close>

fun split_on :: "char \<Rightarrow> string \<Rightarrow> string list" where
  "split_on c [] = [[]]"
| "split_on c (x # xs) =
     (if x = c then [] # split_on c xs
      else (case split_on c xs of
              [] \<Rightarrow> [[x]]
            | w # ws \<Rightarrow> (x # w) # ws))"

text \<open>\<^verbatim>\<open>sep.join(pieces)\<close>.\<close>

fun join :: "string \<Rightarrow> string list \<Rightarrow> string" where
  "join sep [] = []"
| "join sep [x] = x"
| "join sep (x # y # ys) = x @ sep @ join sep (y # ys)"

text \<open>\<^verbatim>\<open>s.startswith(p)\<close> and \<^verbatim>\<open>s.endswith(p)\<close> for a string argument.\<close>

definition startswith :: "string \<Rightarrow> string \<Rightarrow> bool" where
  "startswith s p = (take (length p) s = p)"

definition endswith :: "string \<Rightarrow> string \<Rightarrow> bool" where
  "endswith s p = (length p \<le> length s \<and> drop (length s - length p) s = p)"

text \<open>\<^verbatim>\<open>s.rfind(c)\<close>: the index of the last \<open>c\<close>; \<open>None\<close> stands for Python's \<open>-1\<close>.\<close>

fun rfind :: "char \<Rightarrow> string \<Rightarrow> nat option" where
  "rfind c [] = None"
| "rfind c (x # xs) =
     (case rfind c xs of
        Some i \<Rightarrow> Some (Suc i)
      | None \<Rightarrow> (if x = c then Some 0 else None))"

text \<open>\<^verbatim>\<open>itertools.accumulate(xs, f)\<close>.\<close>

fun accumulate_from :: "('a \<Rightarrow> 'a \<Rightarrow> 'a) \<Rightarrow> 'a \<Rightarrow> 'a list \<Rightarrow> 'a list" where
  "accumulate_from f a [] = [a]"
| "accumulate_from f a (b # bs) = a # accumulate_from f (f a b) bs"

fun accumulate :: "('a \<Rightarrow> 'a \<Rightarrow> 'a) \<Rightarrow> 'a list \<Rightarrow> 'a list" where
  "accumulate f [] = []"
| "accumulate f (x # xs) = accumulate_from f x xs"

text \<open>\<^verbatim>\<open>dict.fromkeys(xs)\<close> read as a list of keys: duplicates dropped, first occurrence kept.\<close>

fun fromkeys_acc :: "'a list \<Rightarrow> 'a list \<Rightarrow> 'a list" where
  "fromkeys_acc seen [] = []"
| "fromkeys_acc seen (x # xs) =
     (if x \<in> set seen then fromkeys_acc seen xs else x # fromkeys_acc (seen @ [x]) xs)"

definition fromkeys :: "'a list \<Rightarrow> 'a list" where
  "fromkeys xs = fromkeys_acc [] xs"

subsection \<open>Paths (pathlib on POSIX)\<close>

text \<open>
  A pure POSIX path: its root (\<open>''''\<close>, \<open>''/''\<close> or \<open>''//''\<close>) and its components. Two
  paths are equal when both agree, as \<^verbatim>\<open>PurePosixPath.__eq__\<close> has it.
\<close>

datatype path = PurePath (root: string) (tail: "string list")

definition splitroot :: "string \<Rightarrow> string" where
  "splitroot s =
     (if take 1 s \<noteq> ''/'' then ''''
      else if take 1 (drop 1 s) \<noteq> ''/'' \<or> take 1 (drop 2 s) = ''/'' then ''/''
      else ''//'')"

text \<open>\<^verbatim>\<open>Path(s)\<close> for a string: empty and \<open>.\<close> components vanish.\<close>

definition Path :: "string \<Rightarrow> path" where
  "Path s = PurePath (splitroot s) (filter (\<lambda>c. c \<noteq> [] \<and> c \<noteq> ''.'') (split_on CHR ''/'' s))"

text \<open>\<^verbatim>\<open>p / q\<close>: an absolute right operand replaces the left one.\<close>

definition joinpath :: "path \<Rightarrow> path \<Rightarrow> path" where
  "joinpath p q = (if root q \<noteq> [] then q else PurePath (root p) (tail p @ tail q))"

text \<open>\<^verbatim>\<open>Path(*segments)\<close>.\<close>

definition Path_of :: "string list \<Rightarrow> path" where
  "Path_of segments = foldl joinpath (PurePath [] []) (map Path segments)"

definition name :: "path \<Rightarrow> string" where
  "name p = (if tail p = [] then [] else last (tail p))"

text \<open>\<^verbatim>\<open>p.suffix\<close>: from the last dot of the name, unless that dot is first or last.\<close>

definition suffix_of :: "string \<Rightarrow> string" where
  "suffix_of n =
     (case rfind CHR ''.'' n of
        None \<Rightarrow> []
      | Some i \<Rightarrow> (if 0 < i \<and> i + 1 < length n then drop i n else []))"

text \<open>
  \<^verbatim>\<open>p.with_suffix(s)\<close>. The source raises \<^verbatim>\<open>ValueError\<close> on an empty name; its only call
  is guarded by \<^verbatim>\<open>path.name and ...\<close>, so the model leaves such a path as it is.
\<close>

definition with_suffix :: "path \<Rightarrow> string \<Rightarrow> path" where
  "with_suffix p s =
     (if tail p = [] then p
      else (let n = name p; old = suffix_of n;
                n' = (if old = [] then n @ s else take (length n - length old) n @ s)
            in PurePath (root p) (butlast (tail p) @ [n'])))"

text \<open>\<^verbatim>\<open>p.parents\<close>: the proper ancestors, nearest first, down to the root or \<open>.\<close>.\<close>

definition parents :: "path \<Rightarrow> path list" where
  "parents p = map (\<lambda>n. PurePath (root p) (take n (tail p))) (rev [0..<length (tail p)])"

text \<open>\<^verbatim>\<open>str(p)\<close>.\<close>

definition path_str :: "path \<Rightarrow> string" where
  "path_str p =
     (if tail p = [] then (if root p = [] then ''.'' else root p)
      else root p @ join ''/'' (tail p))"

subsection \<open>The environment\<close>

text \<open>
  The filesystem as the source queries it. \<open>iterdir\<close> and \<open>zip_namelist\<close>
  (\<^verbatim>\<open>ZipFile(archive).namelist()\<close>) may raise.
\<close>

record fs =
  is_dir :: "path \<Rightarrow> bool"
  is_file :: "path \<Rightarrow> bool"
  iterdir :: "path \<Rightarrow> exn + path list"
  zip_namelist :: "path \<Rightarrow> exn + string list"

text \<open>
  The configuration that \<^verbatim>\<open>search_locations\<close> reads through helpers of
  \<^verbatim>\<open>yt_dlp.utils\<close> and \<^verbatim>\<open>yt_dlp.compat\<close>, which are taken as given:
  \<^verbatim>\<open>get_user_config_dirs('yt-dlp')\<close>, \<^verbatim>\<open>get_system_config_dirs('yt-dlp')\<close>,
  \<^verbatim>\<open>get_executable_path()\<close>, \<^verbatim>\<open>compat_expanduser('~')\<close>,
  \<^verbatim>\<open>os.getenv('XDG_CONFIG_HOME')\<close>, \<^verbatim>\<open>compat_expanduser('~/.config')\<close> and \<^verbatim>\<open>sys.path\<close>.
\<close>

record env =
  user_config_dirs :: "string list"
  system_config_dirs :: "string list"
  executable_path :: string
  home :: string
  xdg_config_home :: "string option"
  home_config :: string
  sys_path :: "string list"

definition PACKAGE_NAME :: string where
  "PACKAGE_NAME = ''yt_dlp_plugins''"

definition COMPAT_PACKAGE_NAME :: string where
  "COMPAT_PACKAGE_NAME = ''ytdlp_plugins''"

subsection \<open>PluginLoader\<close>

datatype loader = PluginLoader

text \<open>\<^verbatim>\<open>PluginLoader.exec_module\<close> returns \<^verbatim>\<open>None\<close> and does not touch the module.\<close>

definition exec_module :: "loader \<Rightarrow> 'm \<Rightarrow> unit \<times> 'm" where
  "exec_module self module = ((), module)"

subsection \<open>PluginFinder\<close>

text \<open>
  The finder object: its two fields, and \<open>zip_opened\<close>, the log of the archives it has
  opened with \<^verbatim>\<open>ZipFile\<close> (an observation of the environment, not a field of the class).
\<close>

record finder =
  packages :: "string set"
  zip_content_cache :: "path \<rightharpoonup> path list"
  zip_opened :: "path list"

definition partition_name :: "string \<Rightarrow> string list" where
  "partition_name n = accumulate (\<lambda>a b. join ''.'' [a, b]) (split_on CHR ''.'' n)"

text \<open>\<^verbatim>\<open>PluginFinder(*packages)\<close>.\<close>

definition PluginFinder :: "string list \<Rightarrow> finder" where
  "PluginFinder names =
     \<lparr> packages = fold (\<lambda>n acc. acc \<union> set (partition_name n)) names {},
       zip_content_cache = Map.empty,
       zip_opened = [] \<rparr>"

text \<open>The containment test of \<^verbatim>\<open>zip_has_dir\<close> on a list of entries.\<close>

definition has_dir :: "path list \<Rightarrow> path \<Rightarrow> bool" where
  "has_dir files p = (\<exists>file \<in> set files. p \<in> set (parents file))"

text \<open>
  \<^verbatim>\<open>zip_has_dir(archive, path)\<close>. The right-hand side of the cache assignment is
  evaluated first: when it raises, nothing is stored.
\<close>

definition zip_has_dir :: "fs \<Rightarrow> path \<Rightarrow> path \<Rightarrow> finder \<Rightarrow> (exn + bool) \<times> finder" where
  "zip_has_dir f archive p self =
     (case zip_content_cache self archive of
        Some files \<Rightarrow> (Inr (has_dir files p), self)
      | None \<Rightarrow>
          (let opened = self\<lparr>zip_opened := zip_opened self @ [archive]\<rparr>
           in case zip_namelist f archive of
                Inl e \<Rightarrow> (Inl e, opened)
              | Inr names \<Rightarrow>
                  (let files = map Path names
                   in (Inr (has_dir files p),
                       opened\<lparr>zip_content_cache := (zip_content_cache opened)(archive \<mapsto> files)\<rparr>))))"

text \<open>The nested generator \<^verbatim>\<open>_get_package_paths\<close>, consumed whole by \<^verbatim>\<open>list.extend\<close>.\<close>

fun get_package_paths :: "fs \<Rightarrow> path list \<Rightarrow> string \<Rightarrow> exn + path list" where
  "get_package_paths f [] containing_folder = Inr []"
| "get_package_paths f (config_dir # rest) containing_folder =
     (let plugin_dir = joinpath config_dir (Path containing_folder)
      in if \<not> is_dir f plugin_dir then get_package_paths f rest containing_folder
         else (case iterdir f plugin_dir of
                 Inl e \<Rightarrow> Inl e
               | Inr children \<Rightarrow>
                   (case get_package_paths f rest containing_folder of
                      Inl e \<Rightarrow> Inl e
                    | Inr others \<Rightarrow> Inr (children @ others))))"

text \<open>The roots of the legacy \<^verbatim>\<open>yt-dlp-plugins\<close> folders (lines 79 to 84).\<close>

definition legacy_roots :: "env \<Rightarrow> string list" where
  "legacy_roots e =
     [executable_path e, home e, ''/etc'',
      (case xdg_config_home e of
         None \<Rightarrow> home_config e
       | Some x \<Rightarrow> (if x = [] then home_config e else x))]"

text \<open>The list \<^verbatim>\<open>candidate_locations\<close> that lines 63 to 86 build.\<close>

definition candidate_locations :: "env \<Rightarrow> fs \<Rightarrow> exn + path list" where
  "candidate_locations e f =
     (case get_package_paths f (map Path (user_config_dirs e @ system_config_dirs e)) ''plugins'' of
        Inl x \<Rightarrow> Inl x
      | Inr config \<Rightarrow>
          (case get_package_paths f (map Path (legacy_roots e)) ''yt-dlp-plugins'' of
             Inl x \<Rightarrow> Inl x
           | Inr legacy \<Rightarrow> Inr (config @ legacy @ map Path (sys_path e))))"

definition archive_suffixes :: "string list" where
  "archive_suffixes = [''.zip'', ''.egg'', ''.whl'']"

text \<open>The guard of the \<^verbatim>\<open>elif\<close> of line 94.\<close>

definition archive_like :: "fs \<Rightarrow> path \<Rightarrow> bool" where
  "archive_like f p = (name p \<noteq> [] \<and> (\<exists>s \<in> set archive_suffixes. is_file f (with_suffix p s)))"

text \<open>
  The loop of lines 90 to 97 over the remaining roots. \<^verbatim>\<open>contextlib.suppress\<close> swallows
  \<open>FileNotFoundError\<close> only; any other exception of \<^verbatim>\<open>zip_has_dir\<close> leaves the loop.
\<close>

fun search_loop :: "fs \<Rightarrow> path \<Rightarrow> path list \<Rightarrow> string set \<Rightarrow> finder \<Rightarrow> (exn + string set) \<times> finder" where
  "search_loop f parts [] locations self = (Inr locations, self)"
| "search_loop f parts (p # rest) locations self =
     (let candidate = joinpath p parts
      in if is_dir f candidate
         then search_loop f parts rest (insert (path_str candidate) locations) self
         else if archive_like f p
         then (case zip_has_dir f p parts self of
                 (Inl e, self') \<Rightarrow>
                   (if e = FileNotFoundError then search_loop f parts rest locations self'
                    else (Inl e, self'))
               | (Inr found, self') \<Rightarrow>
                   search_loop f parts rest
                     (if found then insert (path_str candidate) locations else locations) self')
         else search_loop f parts rest locations self)"

definition search_locations :: "env \<Rightarrow> fs \<Rightarrow> string \<Rightarrow> finder \<Rightarrow> (exn + string set) \<times> finder" where
  "search_locations e f fullname self =
     (case candidate_locations e f of
        Inl x \<Rightarrow> (Inl x, self)
      | Inr candidates \<Rightarrow>
          search_loop f (Path_of (split_on CHR ''.'' fullname)) (fromkeys candidates) {} self)"

record ModuleSpec =
  spec_name :: string
  spec_loader :: loader
  is_package :: bool
  submodule_search_locations :: "string set"

text \<open>\<^verbatim>\<open>PluginFinder.find_spec\<close>; \<open>None\<close> is "no opinion".\<close>

definition find_spec :: "env \<Rightarrow> fs \<Rightarrow> string \<Rightarrow> finder \<Rightarrow> (exn + ModuleSpec option) \<times> finder" where
  "find_spec e f fullname self =
     (if fullname \<notin> packages self then (Inr None, self)
      else (case search_locations e f fullname self of
              (Inl x, self') \<Rightarrow> (Inl x, self')
            | (Inr locations, self') \<Rightarrow>
                (if locations = {} then (Inr None, self')
                 else (Inr (Some \<lparr> spec_name = fullname, spec_loader = PluginLoader,
                                    is_package = True,
                                    submodule_search_locations = locations \<rparr>), self'))))"

text \<open>
  \<^verbatim>\<open>PluginFinder.invalidate_caches\<close>, on the finder and on the names bound in
  \<^verbatim>\<open>sys.modules\<close>.
\<close>

definition invalidate_caches :: "finder \<Rightarrow> (string \<rightharpoonup> 'm) \<Rightarrow> finder \<times> (string \<rightharpoonup> 'm)" where
  "invalidate_caches self sys_modules =
     (self\<lparr>zip_content_cache := Map.empty\<rparr>,
      (\<lambda>n. if n \<in> packages self then None else sys_modules n))"

subsection \<open>initialize\<close>

text \<open>An entry of \<^verbatim>\<open>sys.meta_path\<close>: a finder of this module, or one of the runtime's own.\<close>

datatype meta_finder = Plugin_Finder finder | Other_Finder string

record interp =
  INITIALIZED :: bool
  meta_path :: "meta_finder list"

definition initialize :: "interp \<Rightarrow> interp" where
  "initialize s =
     (if INITIALIZED s then s
      else s\<lparr> meta_path :=
                Plugin_Finder (PluginFinder [PACKAGE_NAME @ ''.extractor'',
                                             PACKAGE_NAME @ ''.postprocessor'']) # meta_path s,
              INITIALIZED := True \<rparr>)"

subsection \<open>Modules, classes and dictionaries\<close>

text \<open>
  A top-level value of a module: a class with its \<^verbatim>\<open>__name__\<close>, its \<^verbatim>\<open>__module__\<close> (a
  string) and an identity that tells two classes of one name apart, or anything else.
\<close>

datatype pyobj = PyClass (cls_name: string) (cls_module: string) (cls_id: nat) | PyOther

text \<open>
  An executed module: the pairs of \<^verbatim>\<open>dir(module)\<close> with their values, and
  \<^verbatim>\<open>__all__\<close> when the module declares one (a list of strings).

  These two types hold the modules that are well-formed for class selection: the
  \<^verbatim>\<open>__module__\<close> of every class is a string, and \<^verbatim>\<open>__all__\<close>, when declared, is a list
  of strings. On any other module \<^verbatim>\<open>check_predicate\<close> can raise (\<^verbatim>\<open>AttributeError\<close> at
  line 149 when \<^verbatim>\<open>__module__\<close> has no \<^verbatim>\<open>startswith\<close>, \<^verbatim>\<open>TypeError\<close> at line 151 when
  \<^verbatim>\<open>__all__\<close> supports no \<^verbatim>\<open>in\<close>), and since line 179 calls \<^verbatim>\<open>load_module\<close> outside
  the \<^verbatim>\<open>try\<close> of lines 165 to 178, that exception leaves \<^verbatim>\<open>load_plugins\<close>. Such
  modules have no value here: everything stated below of \<open>gen_predicate\<close>,
  \<open>load_module\<close>, \<open>scan\<close> and \<open>load_plugins\<close> is stated of well-formed modules.
\<close>

record py_module =
  members :: "(string \<times> pyobj) list"
  all_decl :: "string list option"

text \<open>A Python \<^verbatim>\<open>dict\<close> with string keys, in insertion order.\<close>

type_synonym 'v dict = "(string \<times> 'v) list"

definition keys :: "'v dict \<Rightarrow> string list" where
  "keys d = map fst d"

text \<open>\<^verbatim>\<open>d.update(other)\<close>: a key of \<open>d\<close> keeps its place, a new key goes last.\<close>

definition dict_update :: "'v dict \<Rightarrow> (string \<times> 'v) list \<Rightarrow> 'v dict" where
  "dict_update d other = fold (\<lambda>(k, v). AList.update k v) other d"

text \<open>\<^verbatim>\<open>dict(pairs)\<close>.\<close>

definition dict_of :: "(string \<times> 'v) list \<Rightarrow> 'v dict" where
  "dict_of pairs = dict_update [] pairs"

text \<open>\<^verbatim>\<open>inspect.getmembers(module, predicate)\<close>: the members that pass, sorted by name.\<close>

definition getmembers :: "py_module \<Rightarrow> (pyobj \<Rightarrow> bool) \<Rightarrow> (string \<times> pyobj) list" where
  "getmembers module predicate = sort_key fst (filter (\<lambda>(k, v). predicate v) (members module))"

subsection \<open>load\_plugins\<close>

text \<open>\<^verbatim>\<open>check_predicate\<close> as \<^verbatim>\<open>gen_predicate(package_name, module)\<close> returns it.\<close>

fun gen_predicate :: "string \<Rightarrow> string \<Rightarrow> py_module \<Rightarrow> pyobj \<Rightarrow> bool" where
  "gen_predicate suffix package_name module (PyClass n m i) =
     (endswith n suffix
      \<and> startswith m package_name
      \<and> \<not> startswith n ''_''
      \<and> n \<in> set (case all_decl module of None \<Rightarrow> [n] | Some names \<Rightarrow> names))"
| "gen_predicate suffix package_name module PyOther = False"

text \<open>The dictionary \<^verbatim>\<open>module_classes\<close> of line 156.\<close>

definition module_classes :: "string \<Rightarrow> py_module \<Rightarrow> string \<Rightarrow> pyobj dict" where
  "module_classes suffix module module_name =
     dict_of (getmembers module (gen_predicate suffix module_name module))"

text \<open>
  The nested \<^verbatim>\<open>load_module\<close>: the new value of \<^verbatim>\<open>classes\<close>, given the namespace and
  the old value. On the well-formed modules of this model no step of it raises.
\<close>

definition load_module ::
  "string \<Rightarrow> pyobj dict \<Rightarrow> py_module \<Rightarrow> string \<Rightarrow> pyobj dict \<Rightarrow> pyobj dict" where
  "load_module suffix namespace module module_name classes =
     (let name_collisions =
            (set (keys classes) \<union> set (keys namespace))
              \<inter> set (keys (module_classes suffix module module_name))
      in dict_update classes
           (filter (\<lambda>(k, v). k \<notin> name_collisions) (module_classes suffix module module_name)))"

text \<open>
  The pattern \<^verbatim>\<open>^(\w+\.)*_\<close> of line 163 on the dot-separated pieces of a module name:
  it matches when some piece starts with an underscore and every piece before it is a
  non-empty run of word characters. Word characters are the ASCII ones.
\<close>

definition word_char :: "char \<Rightarrow> bool" where
  "word_char c =
     (c \<in> set (''abcdefghijklmnopqrstuvwxyz'' @ ''ABCDEFGHIJKLMNOPQRSTUVWXYZ'' @ ''0123456789_''))"

fun private_pieces :: "string list \<Rightarrow> bool" where
  "private_pieces [] = False"
| "private_pieces (piece # rest) =
     (startswith piece ''_'' \<or> (piece \<noteq> [] \<and> list_all word_char piece \<and> private_pieces rest))"

definition private_name :: "string \<Rightarrow> bool" where
  "private_name module_name = private_pieces (split_on CHR ''.'' module_name)"

text \<open>
  One element of \<^verbatim>\<open>iter_modules(name)\<close>: the module's name, and what lines 166 to 175
  (finding, creating and executing it) end in: the executed module or the exception raised.
\<close>

record plugin_entry =
  entry_name :: string
  executed :: "exn + py_module"

text \<open>
  The import system, taken as given: what \<^verbatim>\<open>importlib.import_module(fullname)\<close>
  followed by \<^verbatim>\<open>pkgutil.iter_modules\<close> gives for a package name (the submodules, or
  the exception raised), and what lines 185 to 189 give for the legacy package of a
  category (the executed module, or the exception raised).
\<close>

record runtime =
  import_package :: "string \<Rightarrow> exn + plugin_entry list"
  exec_compat :: "string \<Rightarrow> exn + py_module"

text \<open>\<^verbatim>\<open>iter_modules(subpackage)\<close>: \<open>ModuleNotFoundError\<close> is suppressed, nothing is yielded.\<close>

definition iter_modules :: "runtime \<Rightarrow> string \<Rightarrow> exn + plugin_entry list" where
  "iter_modules rt subpackage =
     (let fullname = PACKAGE_NAME @ ''.'' @ subpackage
      in case import_package rt fullname of
           Inl e \<Rightarrow> (if e = ModuleNotFoundError then Inr [] else Inl e)
         | Inr entries \<Rightarrow> Inr entries)"

text \<open>
  What the loop of lines 162 to 179 changes: \<^verbatim>\<open>classes\<close>, and the messages given to
  \<^verbatim>\<open>write_string\<close>, each recorded as the module's name and the exception whose trace
  it prints.
\<close>

record load_state =
  classes :: "pyobj dict"
  written :: "(string \<times> exn) list"

text \<open>The loop; \<open>Some e\<close> is an exception that leaves it.\<close>

fun scan :: "string \<Rightarrow> pyobj dict \<Rightarrow> plugin_entry list \<Rightarrow> load_state \<Rightarrow> exn option \<times> load_state" where
  "scan suffix namespace [] s = (None, s)"
| "scan suffix namespace (entry # rest) s =
     (if private_name (entry_name entry) then scan suffix namespace rest s
      else (case executed entry of
              Inl e \<Rightarrow>
                (if is_Exception e
                 then scan suffix namespace rest (s\<lparr>written := written s @ [(entry_name entry, e)]\<rparr>)
                 else (Some e, s))
            | Inr module \<Rightarrow>
                scan suffix namespace rest
                  (s\<lparr>classes := load_module suffix namespace module (entry_name entry) (classes s)\<rparr>)))"

text \<open>The compat block of lines 184 to 190; \<open>spec.name\<close> is the category name.\<close>

definition load_compat :: "runtime \<Rightarrow> string \<Rightarrow> string \<Rightarrow> pyobj dict \<Rightarrow> load_state \<Rightarrow> exn option \<times> load_state" where
  "load_compat rt category suffix namespace s =
     (case exec_compat rt category of
        Inl e \<Rightarrow> (if e = FileNotFoundError then (None, s) else (Some e, s))
      | Inr plugins \<Rightarrow>
          (None, s\<lparr>classes := load_module suffix namespace plugins category (classes s)\<rparr>))"

text \<open>
  The outcome of a call: the value returned or the exception raised, the messages
  written, and the caller's namespace object after the call (\<open>None\<close> when the caller
  passed none).
\<close>

record load_outcome =
  result :: "exn + pyobj dict"
  messages :: "(string \<times> exn) list"
  caller_namespace :: "pyobj dict option"

text \<open>
  \<^verbatim>\<open>load_plugins(name, suffix, namespace)\<close>. \<^verbatim>\<open>namespace or {}\<close> replaces \<^verbatim>\<open>None\<close> and
  an empty dictionary by a fresh one, so only a non-empty dictionary of the caller is
  the object that line 192 updates.
\<close>

definition load_plugins :: "runtime \<Rightarrow> string \<Rightarrow> string \<Rightarrow> pyobj dict option \<Rightarrow> load_outcome" where
  "load_plugins rt category suffix namespace =
     (let ns = (case namespace of None \<Rightarrow> [] | Some d \<Rightarrow> d);
          raise = (\<lambda>e s. \<lparr> result = Inl e, messages = written s, caller_namespace = namespace \<rparr>);
          s0 = \<lparr> classes = [], written = [] \<rparr>
      in case iter_modules rt category of
           Inl e \<Rightarrow> raise e s0
         | Inr entries \<Rightarrow>
             (case scan suffix ns entries s0 of
                (Some e, s1) \<Rightarrow> raise e s1
              | (None, s1) \<Rightarrow>
                  (case load_compat rt category suffix ns s1 of
                     (Some e, s2) \<Rightarrow> raise e s2
                   | (None, s2) \<Rightarrow>
                       \<lparr> result = Inr (classes s2),
                         messages = written s2,
                         caller_namespace =
                           (case namespace of
                              None \<Rightarrow> None
                            | Some d \<Rightarrow> Some (if d = [] then d else dict_update d (classes s2))) \<rparr>)))"

subsection \<open>Example inputs\<close>

text \<open>An interpreter before the first call of \<^verbatim>\<open>initialize\<close>, with two finders of its own.\<close>

definition fresh_interp :: interp where
  "fresh_interp =
     \<lparr> INITIALIZED = False,
       meta_path = [Other_Finder ''BuiltinImporter'', Other_Finder ''PathFinder''] \<rparr>"

text \<open>
  A configuration and filesystems for it. In \<open>zip_fs names\<close> nothing is a directory and
  the one file is the archive \<^verbatim>\<open>/opt/myplugins.zip\<close>, whose entries are \<open>names\<close>.
  In \<open>dir_fs\<close> the user's \<^verbatim>\<open>plugins\<close> folder exists and holds one package directory.
\<close>

definition zip_env :: env where
  "zip_env =
     \<lparr> user_config_dirs = [''/home/u/.config/yt-dlp''],
       system_config_dirs = [''/etc/yt-dlp''],
       executable_path = ''/usr/bin'',
       home = ''/home/u'',
       xdg_config_home = None,
       home_config = ''/home/u/.config'',
       sys_path = [''/opt/myplugins.zip'', ''/usr/lib/python3''] \<rparr>"

definition zip_fs :: "string list \<Rightarrow> fs" where
  "zip_fs names =
     \<lparr> is_dir = (\<lambda>p. False),
       is_file = (\<lambda>p. p = Path ''/opt/myplugins.zip''),
       iterdir = (\<lambda>p. Inl FileNotFoundError),
       zip_namelist = (\<lambda>p. if p = Path ''/opt/myplugins.zip'' then Inr names else Inl FileNotFoundError) \<rparr>"

definition dir_fs :: fs where
  "dir_fs =
     \<lparr> is_dir = (\<lambda>p. p = Path ''/home/u/.config/yt-dlp/plugins''
                      \<or> p = Path ''/home/u/.config/yt-dlp/plugins/mypkg/yt_dlp_plugins/extractor''),
       is_file = (\<lambda>p. False),
       iterdir = (\<lambda>p. if p = Path ''/home/u/.config/yt-dlp/plugins''
                       then Inr [Path ''/home/u/.config/yt-dlp/plugins/mypkg'']
                       else Inl FileNotFoundError),
       zip_namelist = (\<lambda>p. Inl FileNotFoundError) \<rparr>"

text \<open>The finder that \<^verbatim>\<open>initialize\<close> installs.\<close>

definition installed_finder :: finder where
  "installed_finder = PluginFinder [PACKAGE_NAME @ ''.extractor'', PACKAGE_NAME @ ''.postprocessor'']"

subsection \<open>Notions the properties are stated with\<close>



text \<open>
  What \<^verbatim>\<open>_get_package_paths\<close> yields when no listing raises: the entries of every
  \<open>root/folder\<close> that is a directory, in the order of the roots.
\<close>

definition existing_children :: "fs \<Rightarrow> string \<Rightarrow> path list \<Rightarrow> path list" where
  "existing_children f folder roots =
     concat (map (\<lambda>r. case iterdir f (joinpath r (Path folder)) of Inl e \<Rightarrow> [] | Inr children \<Rightarrow> children)
                 (filter (\<lambda>r. is_dir f (joinpath r (Path folder))) roots))"

text \<open>
  A sequence of calls of \<^verbatim>\<open>zip_has_dir\<close> on one archive, each with the filesystem of
  its moment and the queried path; the answers in order, and the finder afterwards.
\<close>

fun zip_queries :: "path \<Rightarrow> (fs \<times> path) list \<Rightarrow> finder \<Rightarrow> (exn + bool) list \<times> finder" where
  "zip_queries archive [] self = ([], self)"
| "zip_queries archive ((f, p) # rest) self =
     (case zip_has_dir f archive p self of
        (r, self') \<Rightarrow>
          (case zip_queries archive rest self' of
             (rs, self'') \<Rightarrow> (r # rs, self'')))"

subsection \<open>Example plugins\<close>

text \<open>
  Two executed plugin modules. \<open>foo_module\<close> holds a class imported from a sibling
  plugin module, a class of its own, an underscore class and a function;
  \<open>late_module\<close> defines a second \<^verbatim>\<open>FooIE\<close> and a class with the name of a built-in.
\<close>

definition foo_module :: py_module where
  "foo_module =
     \<lparr> members = [(''BarIE'', PyClass ''BarIE'' ''yt_dlp_plugins.extractor.bar'' 1),
                  (''FooIE'', PyClass ''FooIE'' ''yt_dlp_plugins.extractor.foo'' 2),
                  (''_HiddenIE'', PyClass ''_HiddenIE'' ''yt_dlp_plugins.extractor.foo'' 3),
                  (''helper'', PyOther)],
       all_decl = None \<rparr>"

definition late_module :: py_module where
  "late_module =
     \<lparr> members = [(''FooIE'', PyClass ''FooIE'' ''yt_dlp_plugins.extractor.late'' 4),
                  (''LateIE'', PyClass ''LateIE'' ''yt_dlp_plugins.extractor.late'' 5),
                  (''YoutubeIE'', PyClass ''YoutubeIE'' ''yt_dlp_plugins.extractor.late'' 6)],
       all_decl = None \<rparr>"

text \<open>
  What the import system finds for the category \<^verbatim>\<open>extractor\<close>: \<^verbatim>\<open>foo\<close>, a module that
  raises, a private module and \<^verbatim>\<open>late\<close>; no legacy package.
\<close>

definition demo_entries :: "plugin_entry list" where
  "demo_entries =
     [\<lparr> entry_name = ''yt_dlp_plugins.extractor.foo'', executed = Inr foo_module \<rparr>,
      \<lparr> entry_name = ''yt_dlp_plugins.extractor.broken'', executed = Inl (Exception ''ImportError'') \<rparr>,
      \<lparr> entry_name = ''yt_dlp_plugins.extractor._private'', executed = Inr late_module \<rparr>,
      \<lparr> entry_name = ''yt_dlp_plugins.extractor.late'', executed = Inr late_module \<rparr>]"

definition demo_rt :: runtime where
  "demo_rt =
     \<lparr> import_package = (\<lambda>n. if n = ''yt_dlp_plugins.extractor'' then Inr demo_entries
                               else Inl ModuleNotFoundError),
       exec_compat = (\<lambda>n. Inl FileNotFoundError) \<rparr>"

definition builtin_namespace :: "pyobj dict" where
  "builtin_namespace = [(''YoutubeIE'', PyClass ''YoutubeIE'' ''yt_dlp.extractor.youtube'' 0)]"

definition demo_classes :: "pyobj dict" where
  "demo_classes =
     [(''FooIE'', PyClass ''FooIE'' ''yt_dlp_plugins.extractor.foo'' 2),
      (''LateIE'', PyClass ''LateIE'' ''yt_dlp_plugins.extractor.late'' 5)]"

subsection \<open>Notions the properties of load\_plugins are stated with\<close>

text \<open>The dictionary that \<^verbatim>\<open>namespace or {}\<close> reads as.\<close>

definition namespace_dict :: "pyobj dict option \<Rightarrow> pyobj dict" where
  "namespace_dict namespace = (case namespace of None \<Rightarrow> [] | Some d \<Rightarrow> d)"

text \<open>
  The candidates of one call in registration order: the \<^verbatim>\<open>module_classes\<close> of every
  module the scan executes, in scan order, then those of the legacy package.
  \<open>map_of\<close> on such a list gives the first pair of a name, the earliest registered.
\<close>

fun scanned_classes :: "string \<Rightarrow> plugin_entry list \<Rightarrow> (string \<times> pyobj) list" where
  "scanned_classes suffix [] = []"
| "scanned_classes suffix (entry # rest) =
     (if private_name (entry_name entry) then []
      else (case executed entry of
              Inl e \<Rightarrow> []
            | Inr module \<Rightarrow> module_classes suffix module (entry_name entry)))
     @ scanned_classes suffix rest"

definition registered :: "runtime \<Rightarrow> string \<Rightarrow> string \<Rightarrow> (string \<times> pyobj) list" where
  "registered rt category suffix =
     (case iter_modules rt category of
        Inl e \<Rightarrow> []
      | Inr entries \<Rightarrow> scanned_classes suffix entries)
     @ (case exec_compat rt category of
          Inl e \<Rightarrow> []
        | Inr plugins \<Rightarrow> module_classes suffix plugins category)"

text \<open>
  What first registration leaves of a list of candidates, in their order: a pair is
  dropped when its name is in \<open>seen\<close> or is the name of an earlier pair of the list,
  and kept otherwise.
\<close>

fun survivors :: "string list \<Rightarrow> (string \<times> 'v) list \<Rightarrow> (string \<times> 'v) list" where
  "survivors seen [] = []"
| "survivors seen ((k, v) # rest) =
     (if k \<in> set seen then survivors seen rest else (k, v) # survivors (k # seen) rest)"

text \<open>The keys of \<open>cls\<close> are pairwise different and none is a key of the namespace.\<close>

definition fresh_for :: "pyobj dict \<Rightarrow> pyobj dict \<Rightarrow> bool" where
  "fresh_for namespace cls = (distinct (keys cls) \<and> set (keys cls) \<inter> set (keys namespace) = {})"

text \<open>
  The selection rule in the words of the specification: condition (d) there is that the
  defining module is the category's package or below it.
\<close>

definition descendant_of :: "string \<Rightarrow> string \<Rightarrow> bool" where
  "descendant_of qualified package = (qualified = package \<or> startswith qualified (package @ ''.''))"

definition selected_as_specified :: "string \<Rightarrow> string \<Rightarrow> py_module \<Rightarrow> pyobj \<Rightarrow> bool" where
  "selected_as_specified suffix category_package module obj =
     (case obj of
        PyOther \<Rightarrow> False
      | PyClass n m i \<Rightarrow>
          endswith n suffix
          \<and> \<not> startswith n ''_''
          \<and> descendant_of m category_package
          \<and> (case all_decl module of None \<Rightarrow> True | Some names \<Rightarrow> n \<in> set names))"


text \<open>The same import system with the modules that raise taken out of every package.\<close>

definition without_failures :: "runtime \<Rightarrow> runtime" where
  "without_failures rt =
     rt\<lparr>import_package :=
          (\<lambda>n. case import_package rt n of
                  Inl e \<Rightarrow> Inl e
                | Inr entries \<Rightarrow> Inr (filter (\<lambda>entry. \<not> isl (executed entry)) entries))\<rparr>"


definition compat_absent_or_loaded :: "runtime \<Rightarrow> string \<Rightarrow> bool" where
  "compat_absent_or_loaded rt category =
     (case exec_compat rt category of Inl e \<Rightarrow> e = FileNotFoundError | Inr plugins \<Rightarrow> True)"

section \<open>Properties\<close>

subsection \<open>initialize\<close>

lemma initialize_fixed: "INITIALIZED s \<Longrightarrow> initialize s = s"
  by (simp add: initialize_def)

lemma initialize_sets_flag: "INITIALIZED (initialize s)"
  by (simp add: initialize_def)

lemma initialize_funpow: "(initialize ^^ n) (initialize s) = initialize s"
  by (induction n) (simp_all add: initialize_fixed initialize_sets_flag)

text \<open>
  C6. Initialization is idempotent. Any number \<open>n + 1\<close> of calls of \<^verbatim>\<open>initialize\<close>
  leaves the state that one call leaves, with the flag set; the resolution chain is the
  old one when the flag was set before, and otherwise the old one with one
  \<^verbatim>\<open>PluginFinder\<close> in front, so the calls together add one finder or none; and a call
  after the first changes neither the chain nor the flag.
\<close>

theorem initialize_idempotent:
  "(initialize ^^ Suc n) s = initialize s
   \<and> INITIALIZED ((initialize ^^ Suc n) s)
   \<and> meta_path ((initialize ^^ Suc n) s) =
       (if INITIALIZED s then meta_path s
        else Plugin_Finder (PluginFinder [PACKAGE_NAME @ ''.extractor'',
                                          PACKAGE_NAME @ ''.postprocessor'']) # meta_path s)
   \<and> initialize (initialize s) = initialize s"
proof -
  have once: "(initialize ^^ Suc n) s = initialize s"
    by (simp add: funpow_Suc_right initialize_funpow del: funpow.simps)
  show ?thesis
    unfolding once by (simp add: initialize_def)
qed

theorem initialize_idempotent_witness:
  "meta_path ((initialize ^^ Suc 2) fresh_interp) =
     [Plugin_Finder \<lparr> packages = {''yt_dlp_plugins'', ''yt_dlp_plugins.extractor'',
                                    ''yt_dlp_plugins.postprocessor''},
                      zip_content_cache = Map.empty, zip_opened = [] \<rparr>,
      Other_Finder ''BuiltinImporter'', Other_Finder ''PathFinder'']
   \<and> INITIALIZED ((initialize ^^ Suc 2) fresh_interp)"
proof -
  have unset: "\<not> INITIALIZED fresh_interp"
    by (simp add: fresh_interp_def)
  have pk: "packages (PluginFinder [PACKAGE_NAME @ ''.extractor'', PACKAGE_NAME @ ''.postprocessor'']) =
      {''yt_dlp_plugins'', ''yt_dlp_plugins.extractor'', ''yt_dlp_plugins.postprocessor''}"
    by (simp add: PluginFinder_def partition_name_def PACKAGE_NAME_def insert_commute)
  note t = initialize_idempotent [of 2 fresh_interp]
  have flag: "INITIALIZED ((initialize ^^ Suc 2) fresh_interp)"
    using t by blast
  have "meta_path ((initialize ^^ Suc 2) fresh_interp) =
      (if INITIALIZED fresh_interp then meta_path fresh_interp
       else Plugin_Finder (PluginFinder [PACKAGE_NAME @ ''.extractor'',
                                         PACKAGE_NAME @ ''.postprocessor'']) # meta_path fresh_interp)"
    using t by blast
  with unset have "meta_path ((initialize ^^ Suc 2) fresh_interp) =
      Plugin_Finder (PluginFinder [PACKAGE_NAME @ ''.extractor'',
                                   PACKAGE_NAME @ ''.postprocessor'']) # meta_path fresh_interp"
    by (simp only: if_False)
  moreover have "PluginFinder [PACKAGE_NAME @ ''.extractor'', PACKAGE_NAME @ ''.postprocessor''] =
     \<lparr> packages = {''yt_dlp_plugins'', ''yt_dlp_plugins.extractor'', ''yt_dlp_plugins.postprocessor''},
       zip_content_cache = Map.empty, zip_opened = [] \<rparr>"
    using pk by (simp add: PluginFinder_def)
  ultimately show ?thesis
    using flag by (simp add: fresh_interp_def del: funpow.simps)
qed

subsection \<open>The archive cache\<close>

lemma zip_has_dir_cached:
  "zip_content_cache self archive = Some files \<Longrightarrow>
   zip_has_dir f archive p self = (Inr (has_dir files p), self)"
  by (simp add: zip_has_dir_def)

lemma zip_has_dir_read:
  "zip_content_cache self archive = None \<Longrightarrow> zip_namelist f archive = Inr names \<Longrightarrow>
   zip_has_dir f archive p self =
     (Inr (has_dir (map Path names) p),
      self\<lparr>zip_opened := zip_opened self @ [archive],
           zip_content_cache := (zip_content_cache self)(archive \<mapsto> map Path names)\<rparr>)"
  by (simp add: zip_has_dir_def Let_def)

lemma zip_has_dir_raise:
  "zip_content_cache self archive = None \<Longrightarrow> zip_namelist f archive = Inl e \<Longrightarrow>
   zip_has_dir f archive p self = (Inl e, self\<lparr>zip_opened := zip_opened self @ [archive]\<rparr>)"
  by (simp add: zip_has_dir_def Let_def)

lemma zip_has_dir_uncached:
  "zip_content_cache self archive = None \<Longrightarrow>
   fst (zip_has_dir f archive p self) =
     (case zip_namelist f archive of Inl e \<Rightarrow> Inl e | Inr names \<Rightarrow> Inr (has_dir (map Path names) p))
   \<and> zip_opened (snd (zip_has_dir f archive p self)) = zip_opened self @ [archive]"
  by (simp add: zip_has_dir_def Let_def split: sum.splits)

lemma zip_queries_cached:
  "zip_content_cache self archive = Some files \<Longrightarrow>
   zip_queries archive qs self = (map (\<lambda>(g, q). Inr (has_dir files q)) qs, self)"
  by (induction qs) (auto simp: zip_has_dir_cached)


lemma installed_finder_eq:
  "installed_finder =
     \<lparr> packages = {''yt_dlp_plugins'', ''yt_dlp_plugins.extractor'', ''yt_dlp_plugins.postprocessor''},
       zip_content_cache = Map.empty, zip_opened = [] \<rparr>"
  by (simp add: installed_finder_def PluginFinder_def partition_name_def PACKAGE_NAME_def insert_commute)

text \<open>
  C9. Archive-index caching. For an archive that is not cached and that can be listed,
  a sequence of queries (the first and any number of later ones, each under the
  filesystem of its moment) opens the archive exactly once; the first query stores the
  ordered list of entry paths under the archive's path, and every answer, the later ones
  too, is the containment test on that stored list. After \<^verbatim>\<open>invalidate_caches\<close> the entry
  is gone and the next query opens the archive again.
\<close>

theorem zip_has_dir_reads_once:
  assumes "zip_content_cache self archive = None"
    and "zip_namelist f archive = Inr names"
    and "zip_queries archive ((f, p) # rest) self = (answers, self')"
  shows "zip_opened self' = zip_opened self @ [archive]
       \<and> zip_content_cache self' = (zip_content_cache self)(archive \<mapsto> map Path names)
       \<and> answers = map (\<lambda>(g, q). Inr (has_dir (map Path names) q)) ((f, p) # rest)
       \<and> zip_content_cache (fst (invalidate_caches self' sys_modules)) archive = None
       \<and> zip_opened (snd (zip_has_dir g archive q (fst (invalidate_caches self' sys_modules))))
           = zip_opened self @ [archive, archive]"
proof -
  let ?s = "self\<lparr>zip_opened := zip_opened self @ [archive],
                 zip_content_cache := (zip_content_cache self)(archive \<mapsto> map Path names)\<rparr>"
  have "zip_queries archive ((f, p) # rest) self =
          (map (\<lambda>(g, q). Inr (has_dir (map Path names) q)) ((f, p) # rest), ?s)"
    using assms(1,2) by (simp add: zip_has_dir_read zip_queries_cached)
  with assms(3) have a: "answers = map (\<lambda>(g, q). Inr (has_dir (map Path names) q)) ((f, p) # rest)"
    and s: "self' = ?s"
    by simp_all
  have inv: "zip_content_cache (fst (invalidate_caches self' sys_modules)) archive = None"
    by (simp add: invalidate_caches_def)
  have "zip_opened (fst (invalidate_caches self' sys_modules)) = zip_opened self @ [archive]"
    by (simp add: invalidate_caches_def s)
  with zip_has_dir_uncached [OF inv, of g q]
  have "zip_opened (snd (zip_has_dir g archive q (fst (invalidate_caches self' sys_modules))))
           = zip_opened self @ [archive, archive]"
    by simp
  with a s inv show ?thesis by simp
qed

theorem zip_has_dir_reads_once_witness:
  "zip_content_cache installed_finder (Path ''/opt/myplugins.zip'') = None
   \<and> zip_namelist (zip_fs [''yt_dlp_plugins/extractor/bar.py'']) (Path ''/opt/myplugins.zip'')
       = Inr [''yt_dlp_plugins/extractor/bar.py'']
   \<and> fst (zip_queries (Path ''/opt/myplugins.zip'')
            [(zip_fs [''yt_dlp_plugins/extractor/bar.py''], Path ''yt_dlp_plugins/extractor''),
             (zip_fs [], Path ''yt_dlp_plugins/extractor''),
             (zip_fs [], Path ''yt_dlp_plugins/postprocessor'')] installed_finder)
       = [Inr True, Inr True, Inr False]
   \<and> zip_opened (snd (zip_queries (Path ''/opt/myplugins.zip'')
            [(zip_fs [''yt_dlp_plugins/extractor/bar.py''], Path ''yt_dlp_plugins/extractor''),
             (zip_fs [], Path ''yt_dlp_plugins/extractor''),
             (zip_fs [], Path ''yt_dlp_plugins/postprocessor'')] installed_finder))
       = [Path ''/opt/myplugins.zip'']"
proof -
  let ?a = "Path ''/opt/myplugins.zip''"
  let ?f = "zip_fs [''yt_dlp_plugins/extractor/bar.py'']"
  let ?rest = "[(zip_fs [], Path ''yt_dlp_plugins/extractor''), (zip_fs [], Path ''yt_dlp_plugins/postprocessor'')]"
  let ?q = "zip_queries ?a ((?f, Path ''yt_dlp_plugins/extractor'') # ?rest) installed_finder"
  have c: "zip_content_cache installed_finder ?a = None"
    by (simp add: installed_finder_eq)
  have n: "zip_namelist ?f ?a = Inr [''yt_dlp_plugins/extractor/bar.py'']"
    by (simp add: zip_fs_def)
  have q: "?q = (fst ?q, snd ?q)"
    by simp
  note t = zip_has_dir_reads_once [OF c n q]
  have "zip_opened (snd ?q) = zip_opened installed_finder @ [?a]"
    using t by blast
  then have o: "zip_opened (snd ?q) = [?a]"
    by (simp add: installed_finder_eq)
  have "fst ?q = map (\<lambda>(g, q). Inr (has_dir (map Path [''yt_dlp_plugins/extractor/bar.py'']) q))
                   ((?f, Path ''yt_dlp_plugins/extractor'') # ?rest)"
    using t by blast
  also have "\<dots> = [Inr True, Inr True, Inr False]"
    by code_simp
  finally show ?thesis
    using c n o by blast
qed

text \<open>
  C10. When listing an archive that is not cached raises, the query raises the same
  exception and the cache is as before, so a later query for the same path opens the
  archive again and answers from what it then finds. In the resolution loop a
  \<open>FileNotFoundError\<close> is suppressed and the candidate is not added.
\<close>

theorem zip_has_dir_failure_keeps_cache:
  assumes "zip_content_cache self archive = None"
    and "zip_namelist f archive = Inl e"
  shows "fst (zip_has_dir f archive p self) = Inl e
       \<and> zip_content_cache (snd (zip_has_dir f archive p self)) = zip_content_cache self
       \<and> zip_opened (snd (zip_has_dir g archive q (snd (zip_has_dir f archive p self))))
           = zip_opened self @ [archive, archive]
       \<and> fst (zip_has_dir g archive q (snd (zip_has_dir f archive p self))) =
           (case zip_namelist g archive of
              Inl e' \<Rightarrow> Inl e'
            | Inr names \<Rightarrow> Inr (has_dir (map Path names) q))
       \<and> (e = FileNotFoundError \<and> \<not> is_dir f (joinpath archive p) \<and> archive_like f archive \<longrightarrow>
            search_loop f p (archive # rest) locations self =
              search_loop f p rest locations (snd (zip_has_dir f archive p self)))"
proof -
  let ?s = "self\<lparr>zip_opened := zip_opened self @ [archive]\<rparr>"
  have z: "zip_has_dir f archive p self = (Inl e, ?s)"
    using assms by (rule zip_has_dir_raise)
  have c: "zip_content_cache ?s archive = None"
    using assms(1) by simp
  from zip_has_dir_uncached [OF c, of g q] z show ?thesis
    by (simp add: Let_def)
qed

theorem zip_has_dir_failure_keeps_cache_witness:
  "zip_content_cache installed_finder (Path ''/opt/myplugins'') = None
   \<and> zip_namelist (zip_fs []) (Path ''/opt/myplugins'') = Inl FileNotFoundError
   \<and> archive_like (zip_fs []) (Path ''/opt/myplugins'')
   \<and> fst (zip_has_dir (zip_fs []) (Path ''/opt/myplugins'') (Path ''yt_dlp_plugins/extractor'') installed_finder)
       = Inl FileNotFoundError
   \<and> zip_content_cache (snd (zip_has_dir (zip_fs []) (Path ''/opt/myplugins'') (Path ''yt_dlp_plugins/extractor'') installed_finder))
       = zip_content_cache installed_finder
   \<and> fst (search_loop (zip_fs []) (Path ''yt_dlp_plugins/extractor'') [Path ''/opt/myplugins''] {} installed_finder)
       = Inr {}"
proof -
  let ?a = "Path ''/opt/myplugins''"
  let ?p = "Path ''yt_dlp_plugins/extractor''"
  have c: "zip_content_cache installed_finder ?a = None"
    by (simp add: installed_finder_eq)
  have n: "zip_namelist (zip_fs []) ?a = Inl FileNotFoundError"
    by code_simp
  have l: "archive_like (zip_fs []) ?a"
    by code_simp
  have d: "\<not> is_dir (zip_fs []) (joinpath ?a ?p)"
    by (simp add: zip_fs_def)
  note t = zip_has_dir_failure_keeps_cache [OF c n, of ?p _ _ "[]" "{}"]
  have 1: "fst (zip_has_dir (zip_fs []) ?a ?p installed_finder) = Inl FileNotFoundError"
    using t by blast
  have 2: "zip_content_cache (snd (zip_has_dir (zip_fs []) ?a ?p installed_finder)) = zip_content_cache installed_finder"
    using t by blast
  have "search_loop (zip_fs []) ?p [?a] {} installed_finder =
          search_loop (zip_fs []) ?p [] {} (snd (zip_has_dir (zip_fs []) ?a ?p installed_finder))"
    using t l d by blast
  then have 3: "fst (search_loop (zip_fs []) ?p [?a] {} installed_finder) = Inr {}"
    by simp
  from c n l 1 2 3 show ?thesis by blast
qed

subsection \<open>Resolution\<close>

lemma fromkeys_acc_set: "set (fromkeys_acc seen xs) = set xs - set seen"
  by (induction xs arbitrary: seen) auto


lemma fromkeys_acc_distinct: "distinct (fromkeys_acc seen xs)"
  by (induction xs arbitrary: seen) (auto simp: fromkeys_acc_set)


text \<open>
  C4. The resolution contract of \<^verbatim>\<open>find_spec\<close>. A name that is not watched gets no
  opinion and the finder is untouched. For a watched name whose resolution returns a
  set of locations, the result is \<open>None\<close> when the set is empty, and otherwise a package
  descriptor of that name whose submodule search path is exactly that set and whose
  loader's \<^verbatim>\<open>exec_module\<close> returns nothing and leaves every module as it is.
\<close>

theorem find_spec_contract:
  "(fullname \<notin> packages self \<longrightarrow> find_spec e f fullname self = (Inr None, self))
   \<and> (fullname \<in> packages self \<and> search_locations e f fullname self = (Inr {}, self') \<longrightarrow>
        find_spec e f fullname self = (Inr None, self'))
   \<and> (fullname \<in> packages self \<and> search_locations e f fullname self = (Inr locations, self')
        \<and> locations \<noteq> {} \<longrightarrow>
        (\<exists>spec. find_spec e f fullname self = (Inr (Some spec), self')
           \<and> submodule_search_locations spec = locations
           \<and> spec_name spec = fullname
           \<and> is_package spec
           \<and> (\<forall>module :: 'm. exec_module (spec_loader spec) module = ((), module))))"
  by (simp add: find_spec_def exec_module_def)

theorem find_spec_contract_witness:
  "''yt_dlp_plugins.extractor'' \<in> packages installed_finder
   \<and> fst (search_locations zip_env (zip_fs [''yt_dlp_plugins/extractor/bar.py'']) ''yt_dlp_plugins.extractor'' installed_finder)
       = Inr {''/opt/myplugins.zip/yt_dlp_plugins/extractor''}
   \<and> (\<exists>spec. fst (find_spec zip_env (zip_fs [''yt_dlp_plugins/extractor/bar.py'']) ''yt_dlp_plugins.extractor'' installed_finder)
                = Inr (Some spec)
          \<and> submodule_search_locations spec = {''/opt/myplugins.zip/yt_dlp_plugins/extractor''}
          \<and> exec_module (spec_loader spec) (0::nat) = ((), 0))"
proof -
  let ?f = "zip_fs [''yt_dlp_plugins/extractor/bar.py'']"
  let ?s = "search_locations zip_env ?f ''yt_dlp_plugins.extractor'' installed_finder"
  have watched: "''yt_dlp_plugins.extractor'' \<in> packages installed_finder"
    by (simp add: installed_finder_eq)
  have found: "fst ?s = Inr {''/opt/myplugins.zip/yt_dlp_plugins/extractor''}"
    by code_simp
  then have res: "?s = (Inr {''/opt/myplugins.zip/yt_dlp_plugins/extractor''}, snd ?s)"
    by (simp add: prod_eq_iff)
  have "\<exists>spec. find_spec zip_env ?f ''yt_dlp_plugins.extractor'' installed_finder = (Inr (Some spec), snd ?s)
           \<and> submodule_search_locations spec = {''/opt/myplugins.zip/yt_dlp_plugins/extractor''}
           \<and> spec_name spec = ''yt_dlp_plugins.extractor''
           \<and> is_package spec
           \<and> (\<forall>module :: nat. exec_module (spec_loader spec) module = ((), module))"
    using find_spec_contract [of "''yt_dlp_plugins.extractor''" installed_finder zip_env ?f "snd ?s"
        "{''/opt/myplugins.zip/yt_dlp_plugins/extractor''}"] watched res
    by blast
  then obtain spec where
    "find_spec zip_env ?f ''yt_dlp_plugins.extractor'' installed_finder = (Inr (Some spec), snd ?s)"
    "submodule_search_locations spec = {''/opt/myplugins.zip/yt_dlp_plugins/extractor''}"
    "exec_module (spec_loader spec) (0::nat) = ((), 0)"
    by blast
  then have "fst (find_spec zip_env ?f ''yt_dlp_plugins.extractor'' installed_finder) = Inr (Some spec)
          \<and> submodule_search_locations spec = {''/opt/myplugins.zip/yt_dlp_plugins/extractor''}
          \<and> exec_module (spec_loader spec) (0::nat) = ((), 0)"
    by simp
  then show ?thesis
    using watched found by blast
qed




subsection \<open>Root enumeration\<close>

lemma get_package_paths_eq:
  "get_package_paths f roots folder = Inr cs \<Longrightarrow> cs = existing_children f folder roots"
  by (induction roots arbitrary: cs)
     (auto simp: existing_children_def Let_def split: if_splits sum.splits)

text \<open>
  C8, as stated, fails. With no \<^verbatim>\<open>plugins\<close> directory on disk the enumeration holds the
  two entries of the module search path only; the user's configuration directory joined
  with \<^verbatim>\<open>plugins\<close> is not among them.
\<close>

theorem root_enumeration_counterexample:
  "candidate_locations zip_env (zip_fs []) = Inr [Path ''/opt/myplugins.zip'', Path ''/usr/lib/python3'']
   \<and> joinpath (Path (hd (user_config_dirs zip_env))) (Path ''plugins'')
        \<notin> set [Path ''/opt/myplugins.zip'', Path ''/usr/lib/python3'']"
  by code_simp

text \<open>
  C8, amended. The enumeration reads the filesystem and changes nothing. Every entry of
  the module search path is in it unfiltered, last. A configuration or legacy root is
  filtered here: when \<open>root/folder\<close> is not a directory it gives nothing, and when it is,
  it gives the entries of that directory, not the directory itself.
\<close>

theorem root_enumeration:
  assumes "candidate_locations e f = Inr cs"
  shows "cs = existing_children f ''plugins'' (map Path (user_config_dirs e @ system_config_dirs e))
              @ existing_children f ''yt-dlp-plugins'' (map Path (legacy_roots e))
              @ map Path (sys_path e)"
  using assms
  by (auto simp: candidate_locations_def split: sum.splits dest!: get_package_paths_eq)

theorem root_enumeration_witness:
  "candidate_locations zip_env dir_fs =
     Inr [Path ''/home/u/.config/yt-dlp/plugins/mypkg'', Path ''/opt/myplugins.zip'', Path ''/usr/lib/python3'']
   \<and> [Path ''/home/u/.config/yt-dlp/plugins/mypkg'', Path ''/opt/myplugins.zip'', Path ''/usr/lib/python3''] =
       existing_children dir_fs ''plugins'' (map Path (user_config_dirs zip_env @ system_config_dirs zip_env))
       @ existing_children dir_fs ''yt-dlp-plugins'' (map Path (legacy_roots zip_env))
       @ map Path (sys_path zip_env)"
proof -
  have c: "candidate_locations zip_env dir_fs =
     Inr [Path ''/home/u/.config/yt-dlp/plugins/mypkg'', Path ''/opt/myplugins.zip'', Path ''/usr/lib/python3'']"
    by code_simp
  from root_enumeration [OF c] c show ?thesis by blast
qed

subsection \<open>Dictionaries\<close>

lemma update_append: "k \<notin> fst ` set d \<Longrightarrow> AList.update k v d = d @ [(k, v)]"
  by (induction d) auto

lemma dict_update_append:
  "distinct (map fst other) \<Longrightarrow> fst ` set other \<inter> fst ` set d = {} \<Longrightarrow> dict_update d other = d @ other"
proof (induction other arbitrary: d)
  case Nil
  then show ?case by (simp add: dict_update_def)
next
  case (Cons x other)
  obtain k v where x: "x = (k, v)" by (cases x)
  with Cons.prems have k: "k \<notin> fst ` set d" by auto
  from Cons.prems x have "fst ` set other \<inter> fst ` set (d @ [(k, v)]) = {}"
    by (auto simp: image_iff)
  with Cons.IH [of "d @ [(k, v)]"] Cons.prems(1) have "dict_update (d @ [(k, v)]) other = (d @ [(k, v)]) @ other"
    by simp
  with x k show ?case
    by (simp add: dict_update_def update_append)
qed

lemma dict_of_distinct: "distinct (map fst xs) \<Longrightarrow> dict_of xs = xs"
  by (simp add: dict_of_def dict_update_append)

lemma distinct_dict_update: "distinct (keys d) \<Longrightarrow> distinct (keys (dict_update d other))"
  unfolding dict_update_def keys_def
  by (induction other arbitrary: d) (auto simp: distinct_update)

lemma map_of_filter_keys:
  "map_of (filter (\<lambda>(k, v). Q k) xs) k = (if Q k then map_of xs k else None)"
  by (induction xs) auto

lemma keys_map_of: "k \<in> set (keys d) \<longleftrightarrow> map_of d k \<noteq> None"
  by (simp add: keys_def map_of_eq_None_iff)

lemma distinct_map_insort_key:
  "distinct (map f (insort_key f x xs)) = (f x \<notin> f ` set xs \<and> distinct (map f xs))"
  by (induction xs) (auto simp: set_insort_key)

lemma distinct_map_sort_key: "distinct (map f (sort_key f xs)) = distinct (map f xs)"
  by (induction xs) (simp_all add: distinct_map_insort_key)

subsection \<open>Class selection\<close>

lemma distinct_module_classes: "distinct (keys (module_classes suffix module mname))"
  unfolding module_classes_def dict_of_def
  by (rule distinct_dict_update) (simp add: keys_def)

lemma gen_predicate_iff:
  "gen_predicate suffix mname module obj \<longleftrightarrow>
     (\<exists>n m i. obj = PyClass n m i \<and> endswith n suffix \<and> startswith m mname \<and> \<not> startswith n ''_''
        \<and> (case all_decl module of None \<Rightarrow> True | Some names \<Rightarrow> n \<in> set names))"
  by (cases obj) (auto split: option.splits)

text \<open>
  C3, as stated, fails. \<^verbatim>\<open>BarIE\<close> is a class whose name ends with the suffix and has no
  leading underscore, it is defined in \<^verbatim>\<open>yt_dlp_plugins.extractor.bar\<close>, below the
  category's package \<^verbatim>\<open>yt_dlp_plugins.extractor\<close>, and the module declares no allowlist;
  it is a top-level symbol of the executed module \<^verbatim>\<open>yt_dlp_plugins.extractor.foo\<close> and
  is not collected from it.
\<close>

theorem class_selection_counterexample:
  "selected_as_specified ''IE'' ''yt_dlp_plugins.extractor'' foo_module
      (PyClass ''BarIE'' ''yt_dlp_plugins.extractor.bar'' 1)
   \<and> (''BarIE'', PyClass ''BarIE'' ''yt_dlp_plugins.extractor.bar'' 1) \<in> set (members foo_module)
   \<and> (''BarIE'', PyClass ''BarIE'' ''yt_dlp_plugins.extractor.bar'' 1)
        \<notin> set (module_classes ''IE'' foo_module ''yt_dlp_plugins.extractor.foo'')
   \<and> module_classes ''IE'' foo_module ''yt_dlp_plugins.extractor.foo''
        = [(''FooIE'', PyClass ''FooIE'' ''yt_dlp_plugins.extractor.foo'' 2)]"
  by code_simp

text \<open>
  C3, amended. For a module whose top-level names are pairwise different (as those of
  \<^verbatim>\<open>dir\<close> are), a symbol is collected if and only if its value is a class, the class's
  \<^verbatim>\<open>__name__\<close> ends with the suffix and does not start with an underscore, the class's
  \<^verbatim>\<open>__module__\<close> starts, as a string, with the name \<open>mname\<close> that \<^verbatim>\<open>load_module\<close> is
  given (the executed module's own qualified name in the scan, the category name for
  the legacy package), and the \<^verbatim>\<open>__name__\<close> is in \<^verbatim>\<open>__all__\<close> when the module has one.
\<close>

theorem class_selection:
  assumes "distinct (map fst (members module))"
  shows "(k, obj) \<in> set (module_classes suffix module mname) \<longleftrightarrow>
           (k, obj) \<in> set (members module)
           \<and> (\<exists>n m i. obj = PyClass n m i
                \<and> endswith n suffix
                \<and> startswith m mname
                \<and> \<not> startswith n ''_''
                \<and> (case all_decl module of None \<Rightarrow> True | Some names \<Rightarrow> n \<in> set names))"
proof -
  let ?g = "getmembers module (gen_predicate suffix mname module)"
  have "distinct (map fst (filter (\<lambda>(k, v). gen_predicate suffix mname module v) (members module)))"
    using assms by (rule distinct_map_filter)
  then have "distinct (map fst ?g)"
    by (simp add: getmembers_def distinct_map_sort_key)
  then have "module_classes suffix module mname = ?g"
    by (simp add: module_classes_def dict_of_distinct)
  then show ?thesis
    by (simp add: getmembers_def gen_predicate_iff)
qed

theorem class_selection_witness:
  "distinct (map fst (members foo_module))
   \<and> (''FooIE'', PyClass ''FooIE'' ''yt_dlp_plugins.extractor.foo'' 2)
        \<in> set (module_classes ''IE'' foo_module ''yt_dlp_plugins.extractor.foo'')"
proof -
  have d: "distinct (map fst (members foo_module))"
    by (simp add: foo_module_def)
  have "(''FooIE'', PyClass ''FooIE'' ''yt_dlp_plugins.extractor.foo'' 2) \<in> set (members foo_module)
      \<and> (\<exists>n m i. PyClass ''FooIE'' ''yt_dlp_plugins.extractor.foo'' 2 = PyClass n m i
            \<and> endswith n ''IE''
            \<and> startswith m ''yt_dlp_plugins.extractor.foo''
            \<and> \<not> startswith n ''_''
            \<and> (case all_decl foo_module of None \<Rightarrow> True | Some names \<Rightarrow> n \<in> set names))"
    by (simp add: foo_module_def endswith_def startswith_def)
  with class_selection [OF d, of "''FooIE''" "PyClass ''FooIE'' ''yt_dlp_plugins.extractor.foo'' 2" "''IE''"
      "''yt_dlp_plugins.extractor.foo''"] d
  show ?thesis by blast
qed

subsection \<open>First registration wins\<close>

lemma load_module_append:
  "load_module suffix namespace module mname cls =
     cls @ filter (\<lambda>(k, v). k \<notin> set (keys cls) \<and> k \<notin> set (keys namespace))
             (module_classes suffix module mname)"
proof -
  let ?mc = "module_classes suffix module mname"
  let ?col = "(set (keys cls) \<union> set (keys namespace)) \<inter> set (keys ?mc)"
  have same: "filter (\<lambda>(k, v). k \<notin> ?col) ?mc
            = filter (\<lambda>(k, v). k \<notin> set (keys cls) \<and> k \<notin> set (keys namespace)) ?mc"
    by (rule filter_cong) (auto simp: keys_def image_iff)
  have "distinct (map fst ?mc)"
    using distinct_module_classes [of suffix module mname] by (simp add: keys_def)
  then have d: "distinct (map fst (filter (\<lambda>(k, v). k \<notin> set (keys cls) \<and> k \<notin> set (keys namespace)) ?mc))"
    by (rule distinct_map_filter)
  have "fst ` set (filter (\<lambda>(k, v). k \<notin> set (keys cls) \<and> k \<notin> set (keys namespace)) ?mc) \<inter> fst ` set cls = {}"
    by (auto simp: keys_def) (metis fst_conv image_eqI)
  from dict_update_append [OF d this] same show ?thesis
    by (simp add: load_module_def Let_def)
qed

lemma load_module_map_of:
  "map_of (load_module suffix namespace module mname cls) k =
     (if k \<in> set (keys cls) then map_of cls k
      else if k \<in> set (keys namespace) then None
      else map_of (module_classes suffix module mname) k)"
  by (auto simp: load_module_append map_add_def map_of_filter_keys keys_map_of split: option.splits)

lemma load_module_keys:
  "set (keys (load_module suffix namespace module mname cls)) =
     set (keys cls) \<union> (set (keys (module_classes suffix module mname)) - set (keys namespace))"
  by (auto simp: load_module_append keys_def image_iff)

lemma load_module_fresh:
  assumes "fresh_for namespace cls"
  shows "fresh_for namespace (load_module suffix namespace module mname cls)"
proof -
  let ?mc = "module_classes suffix module mname"
  have "distinct (map fst ?mc)"
    using distinct_module_classes [of suffix module mname] by (simp add: keys_def)
  then have "distinct (map fst (filter (\<lambda>(k, v). k \<notin> set (keys cls) \<and> k \<notin> set (keys namespace)) ?mc))"
    by (rule distinct_map_filter)
  with assms show ?thesis
    by (auto simp: fresh_for_def load_module_append keys_def) (metis fst_conv image_eqI)+
qed

lemma scan_first_wins:
  assumes "scan suffix namespace entries s = (None, s')"
  shows "map_of (classes s') k =
           (if k \<in> set (keys (classes s)) then map_of (classes s) k
            else if k \<in> set (keys namespace) then None
            else map_of (scanned_classes suffix entries) k)"
  using assms
proof (induction entries arbitrary: s)
  case Nil
  then show ?case by (auto simp: keys_map_of)
next
  case (Cons entry rest)
  show ?case
  proof (cases "private_name (entry_name entry)")
    case True
    with Cons show ?thesis by simp
  next
    case False
    show ?thesis
    proof (cases "executed entry")
      case (Inl e)
      with False Cons.prems have "scan suffix namespace rest (s\<lparr>written := written s @ [(entry_name entry, e)]\<rparr>) = (None, s')"
        by (simp split: if_splits)
      from Cons.IH [OF this] False Inl show ?thesis by simp
    next
      case (Inr module)
      let ?s1 = "s\<lparr>classes := load_module suffix namespace module (entry_name entry) (classes s)\<rparr>"
      from Inr False Cons.prems have "scan suffix namespace rest ?s1 = (None, s')"
        by simp
      from Cons.IH [OF this] False Inr show ?thesis
        by (auto simp: load_module_map_of load_module_keys map_add_def keys_map_of split: option.splits)
    qed
  qed
qed

lemma scan_fresh:
  assumes "scan suffix namespace entries s = (r, s')" and "fresh_for namespace (classes s)"
  shows "fresh_for namespace (classes s')"
  using assms
proof (induction entries arbitrary: s)
  case Nil
  then show ?case by simp
next
  case (Cons entry rest)
  then show ?case
    by (auto simp: load_module_fresh split: if_splits sum.splits)
qed

lemma load_plugins_returns:
  assumes "result (load_plugins rt category suffix namespace) = Inr cls"
  shows "\<exists>entries s1 s2.
           iter_modules rt category = Inr entries
           \<and> scan suffix (namespace_dict namespace) entries \<lparr>classes = [], written = []\<rparr> = (None, s1)
           \<and> load_compat rt category suffix (namespace_dict namespace) s1 = (None, s2)
           \<and> cls = classes s2
           \<and> messages (load_plugins rt category suffix namespace) = written s2
           \<and> caller_namespace (load_plugins rt category suffix namespace) =
               (case namespace of
                  None \<Rightarrow> None
                | Some d \<Rightarrow> Some (if d = [] then d else dict_update d (classes s2)))"
  using assms
  by (auto simp: load_plugins_def namespace_dict_def Let_def split: sum.splits prod.splits option.splits)

lemma load_compat_first_wins:
  assumes "load_compat rt category suffix namespace s = (None, s')"
  shows "map_of (classes s') k =
           (if k \<in> set (keys (classes s)) then map_of (classes s) k
            else if k \<in> set (keys namespace) then None
            else map_of (case exec_compat rt category of
                           Inl e \<Rightarrow> []
                         | Inr plugins \<Rightarrow> module_classes suffix plugins category) k)"
  using assms
  by (auto simp: load_compat_def load_module_map_of keys_map_of split: sum.splits if_splits)

lemma load_compat_fresh:
  assumes "load_compat rt category suffix namespace s = (r, s')" and "fresh_for namespace (classes s)"
  shows "fresh_for namespace (classes s')"
  using assms
  by (auto simp: load_compat_def load_module_fresh split: sum.splits if_splits)

lemma load_plugins_first_wins:
  assumes "result (load_plugins rt category suffix namespace) = Inr cls"
  shows "map_of cls k =
           (if k \<in> set (keys (namespace_dict namespace)) then None
            else map_of (registered rt category suffix) k)"
proof -
  from load_plugins_returns [OF assms] obtain entries s1 s2 where
    it: "iter_modules rt category = Inr entries"
    and sc: "scan suffix (namespace_dict namespace) entries \<lparr>classes = [], written = []\<rparr> = (None, s1)"
    and co: "load_compat rt category suffix (namespace_dict namespace) s1 = (None, s2)"
    and cls: "cls = classes s2"
    by blast
  have 1: "map_of (classes s1) k =
             (if k \<in> set (keys (namespace_dict namespace)) then None
              else map_of (scanned_classes suffix entries) k)"
    using scan_first_wins [OF sc, of k] by (simp add: keys_def)
  show ?thesis
    unfolding cls load_compat_first_wins [OF co, of k] registered_def it
    using 1 by (auto simp: keys_map_of map_add_def split: option.splits)
qed

lemma load_plugins_fresh:
  assumes "result (load_plugins rt category suffix namespace) = Inr cls"
  shows "fresh_for (namespace_dict namespace) cls"
proof -
  from load_plugins_returns [OF assms] obtain entries s1 s2 where
    sc: "scan suffix (namespace_dict namespace) entries \<lparr>classes = [], written = []\<rparr> = (None, s1)"
    and co: "load_compat rt category suffix (namespace_dict namespace) s1 = (None, s2)"
    and cls: "cls = classes s2"
    by blast
  have "fresh_for (namespace_dict namespace) (classes \<lparr>classes = [], written = []\<rparr>)"
    by (simp add: fresh_for_def keys_def)
  from load_compat_fresh [OF co scan_fresh [OF sc this]] cls show ?thesis
    by simp
qed

lemma load_plugins_caller:
  assumes "result (load_plugins rt category suffix namespace) = Inr cls"
  shows "caller_namespace (load_plugins rt category suffix namespace) =
           (case namespace of
              None \<Rightarrow> None
            | Some d \<Rightarrow> Some (if d = [] then d else dict_update d cls))"
  using assms
  by (auto simp: load_plugins_def Let_def split: sum.splits prod.splits option.splits)

lemma load_plugins_caller_namespace:
  assumes "result (load_plugins rt category suffix (Some d)) = Inr cls"
  shows "caller_namespace (load_plugins rt category suffix (Some d)) = Some (if d = [] then d else d @ cls)"
proof -
  from load_plugins_fresh [OF assms] have "distinct (map fst cls)" "fst ` set cls \<inter> fst ` set d = {}"
    by (simp_all add: fresh_for_def keys_def namespace_dict_def)
  then have app: "dict_update d cls = d @ cls"
    by (rule dict_update_append)
  from load_plugins_caller [OF assms] app show ?thesis
    by simp
qed

text \<open>
  C1. First registration wins. When \<^verbatim>\<open>load_plugins\<close> returns, a name of the
  caller's namespace is not in the returned registry, and any other name is bound there
  to the earliest candidate of that name in registration order (and to nothing when
  there is none); a name of the caller's namespace has afterwards the entry it had
  before. In each single \<^verbatim>\<open>load_module\<close> a name already in \<^verbatim>\<open>classes\<close> keeps its
  class, a name of the namespace is not added, and only another name takes the
  module's class.
\<close>

theorem first_registration_wins:
  assumes "result (load_plugins rt category suffix namespace) = Inr cls"
  shows "map_of cls k =
           (if k \<in> set (keys (namespace_dict namespace)) then None
            else map_of (registered rt category suffix) k)
       \<and> (\<forall>d. namespace = Some d \<and> k \<in> set (keys d) \<longrightarrow>
            (\<exists>d'. caller_namespace (load_plugins rt category suffix namespace) = Some d'
                 \<and> map_of d' k = map_of d k))
       \<and> map_of (load_module suffix (namespace_dict namespace) module mname cls0) k =
           (if k \<in> set (keys cls0) then map_of cls0 k
            else if k \<in> set (keys (namespace_dict namespace)) then None
            else map_of (module_classes suffix module mname) k)"
proof (intro conjI allI impI)
  show "map_of cls k =
           (if k \<in> set (keys (namespace_dict namespace)) then None
            else map_of (registered rt category suffix) k)"
    by (rule load_plugins_first_wins [OF assms])
next
  fix d
  assume a: "namespace = Some d \<and> k \<in> set (keys d)"
  with assms have "caller_namespace (load_plugins rt category suffix namespace) = Some (if d = [] then d else d @ cls)"
    by (simp add: load_plugins_caller_namespace)
  moreover from a have "map_of (if d = [] then d else d @ cls) k = map_of d k"
    by (auto simp: keys_map_of map_add_def split: option.splits)
  ultimately show "\<exists>d'. caller_namespace (load_plugins rt category suffix namespace) = Some d'
                 \<and> map_of d' k = map_of d k"
    by blast
next
  show "map_of (load_module suffix (namespace_dict namespace) module mname cls0) k =
           (if k \<in> set (keys cls0) then map_of cls0 k
            else if k \<in> set (keys (namespace_dict namespace)) then None
            else map_of (module_classes suffix module mname) k)"
    by (rule load_module_map_of)
qed

theorem first_registration_wins_witness:
  "result (load_plugins demo_rt ''extractor'' ''IE'' (Some builtin_namespace)) = Inr demo_classes
   \<and> map_of demo_classes ''FooIE'' =
       (if ''FooIE'' \<in> set (keys (namespace_dict (Some builtin_namespace))) then None
        else map_of (registered demo_rt ''extractor'' ''IE'') ''FooIE'')
   \<and> registered demo_rt ''extractor'' ''IE'' =
       [(''FooIE'', PyClass ''FooIE'' ''yt_dlp_plugins.extractor.foo'' 2),
        (''FooIE'', PyClass ''FooIE'' ''yt_dlp_plugins.extractor.late'' 4),
        (''LateIE'', PyClass ''LateIE'' ''yt_dlp_plugins.extractor.late'' 5),
        (''YoutubeIE'', PyClass ''YoutubeIE'' ''yt_dlp_plugins.extractor.late'' 6)]
   \<and> map_of demo_classes ''FooIE'' = Some (PyClass ''FooIE'' ''yt_dlp_plugins.extractor.foo'' 2)
   \<and> map_of demo_classes ''YoutubeIE'' = None"
proof -
  have r: "result (load_plugins demo_rt ''extractor'' ''IE'' (Some builtin_namespace)) = Inr demo_classes"
    by code_simp
  have "map_of demo_classes ''FooIE'' =
       (if ''FooIE'' \<in> set (keys (namespace_dict (Some builtin_namespace))) then None
        else map_of (registered demo_rt ''extractor'' ''IE'') ''FooIE'')"
    using first_registration_wins [OF r, of "''FooIE''"] by blast
  moreover have "registered demo_rt ''extractor'' ''IE'' =
       [(''FooIE'', PyClass ''FooIE'' ''yt_dlp_plugins.extractor.foo'' 2),
        (''FooIE'', PyClass ''FooIE'' ''yt_dlp_plugins.extractor.late'' 4),
        (''LateIE'', PyClass ''LateIE'' ''yt_dlp_plugins.extractor.late'' 5),
        (''YoutubeIE'', PyClass ''YoutubeIE'' ''yt_dlp_plugins.extractor.late'' 6)]"
    by code_simp
  moreover have "map_of demo_classes ''FooIE'' = Some (PyClass ''FooIE'' ''yt_dlp_plugins.extractor.foo'' 2)"
    and "map_of demo_classes ''YoutubeIE'' = None"
    by (simp_all add: demo_classes_def)
  ultimately show ?thesis
    using r by blast
qed

subsection \<open>What load\_plugins returns\<close>

lemma map_of_distinct_mem: "distinct (map fst xs) \<Longrightarrow> (k, v) \<in> set xs \<Longrightarrow> map_of xs k = Some v"
  by simp

lemma survivors_cong: "set seen = set seen' \<Longrightarrow> survivors seen xs = survivors seen' xs"
proof (induction xs arbitrary: seen seen')
  case Nil
  then show ?case by simp
next
  case (Cons x xs)
  obtain k v where x: "x = (k, v)" by (cases x)
  from Cons.prems have "set (k # seen) = set (k # seen')" by simp
  from Cons.IH [OF this] Cons.IH [OF Cons.prems] Cons.prems x show ?case
    by simp
qed

lemma survivors_append:
  "survivors seen (xs @ ys) = survivors seen xs @ survivors (map fst xs @ seen) ys"
proof (induction xs arbitrary: seen)
  case Nil
  then show ?case by simp
next
  case (Cons x xs)
  obtain k v where x: "x = (k, v)" by (cases x)
  show ?case
  proof (cases "k \<in> set seen")
    case True
    then have "set (map fst xs @ seen) = set (k # map fst xs @ seen)" by auto
    from survivors_cong [OF this] True x Cons.IH [of seen] show ?thesis
      by simp
  next
    case False
    have "set (map fst xs @ k # seen) = set (k # map fst xs @ seen)" by auto
    from survivors_cong [OF this] False x Cons.IH [of "k # seen"] show ?thesis
      by simp
  qed
qed

lemma survivors_distinct_filter:
  "distinct (map fst xs) \<Longrightarrow> survivors seen xs = filter (\<lambda>(k, v). k \<notin> set seen) xs"
proof (induction xs arbitrary: seen)
  case Nil
  then show ?case by simp
next
  case (Cons x xs)
  obtain k v where x: "x = (k, v)" by (cases x)
  from Cons.prems x have k: "k \<notin> fst ` set xs" and d: "distinct (map fst xs)"
    by simp_all
  have "filter (\<lambda>(k', v). k' \<notin> set (k # seen)) xs = filter (\<lambda>(k', v). k' \<notin> set seen) xs"
    using k by (intro filter_cong) (auto simp: image_iff)
  with Cons.IH [OF d] x show ?case
    by simp
qed

lemma keys_survivors: "set (keys (survivors seen xs)) = set (keys xs) - set seen"
  by (induction seen xs rule: survivors.induct) (auto simp: keys_def)

lemma load_module_survivors:
  "load_module suffix namespace module mname cls =
     cls @ survivors (keys cls @ keys namespace) (module_classes suffix module mname)"
proof -
  have "distinct (map fst (module_classes suffix module mname))"
    using distinct_module_classes [of suffix module mname] by (simp add: keys_def)
  then show ?thesis
    by (simp add: load_module_append survivors_distinct_filter)
qed

lemma scan_survivors:
  assumes "scan suffix namespace entries s = (None, s')"
  shows "classes s' =
           classes s @ survivors (keys (classes s) @ keys namespace) (scanned_classes suffix entries)"
  using assms
proof (induction entries arbitrary: s)
  case Nil
  then show ?case by simp
next
  case (Cons entry rest)
  show ?case
  proof (cases "private_name (entry_name entry)")
    case True
    with Cons show ?thesis by simp
  next
    case False
    show ?thesis
    proof (cases "executed entry")
      case (Inl e)
      with False Cons.prems have "scan suffix namespace rest (s\<lparr>written := written s @ [(entry_name entry, e)]\<rparr>) = (None, s')"
        by (simp split: if_splits)
      from Cons.IH [OF this] False Inl show ?thesis by simp
    next
      case (Inr module)
      let ?mc = "module_classes suffix module (entry_name entry)"
      let ?seen = "keys (classes s) @ keys namespace"
      let ?c1 = "load_module suffix namespace module (entry_name entry) (classes s)"
      from Inr False Cons.prems have "scan suffix namespace rest (s\<lparr>classes := ?c1\<rparr>) = (None, s')"
        by simp
      from Cons.IH [OF this]
      have 1: "classes s' = ?c1 @ survivors (keys ?c1 @ keys namespace) (scanned_classes suffix rest)"
        by simp
      have c1: "?c1 = classes s @ survivors ?seen ?mc"
        by (rule load_module_survivors)
      have "set (keys ?c1 @ keys namespace) = set (map fst ?mc @ ?seen)"
        using keys_survivors [of ?seen ?mc] by (auto simp: c1 keys_def)
      from survivors_cong [OF this]
      have 2: "survivors (keys ?c1 @ keys namespace) (scanned_classes suffix rest)
             = survivors (map fst ?mc @ ?seen) (scanned_classes suffix rest)" .
      show ?thesis
        using False Inr by (simp add: 1 2 survivors_append) (simp add: c1)
    qed
  qed
qed

lemma load_compat_survivors:
  assumes "load_compat rt category suffix namespace s = (None, s')"
  shows "classes s' =
           classes s @ survivors (keys (classes s) @ keys namespace)
             (case exec_compat rt category of
                Inl e \<Rightarrow> []
              | Inr plugins \<Rightarrow> module_classes suffix plugins category)"
  using assms
  by (auto simp: load_compat_def load_module_survivors split: sum.splits if_splits)

lemma load_plugins_survivors:
  assumes "result (load_plugins rt category suffix namespace) = Inr cls"
  shows "cls = survivors (keys (namespace_dict namespace)) (registered rt category suffix)"
proof -
  from load_plugins_returns [OF assms] obtain entries s1 s2 where
    it: "iter_modules rt category = Inr entries"
    and sc: "scan suffix (namespace_dict namespace) entries \<lparr>classes = [], written = []\<rparr> = (None, s1)"
    and co: "load_compat rt category suffix (namespace_dict namespace) s1 = (None, s2)"
    and cls: "cls = classes s2"
    by blast
  let ?ns = "keys (namespace_dict namespace)"
  let ?sc = "scanned_classes suffix entries"
  let ?cm = "case exec_compat rt category of Inl e \<Rightarrow> [] | Inr plugins \<Rightarrow> module_classes suffix plugins category"
  from scan_survivors [OF sc] have 1: "classes s1 = survivors ?ns ?sc"
    by (simp add: keys_def)
  have "set (keys (classes s1) @ ?ns) = set (map fst ?sc @ ?ns)"
    using keys_survivors [of ?ns ?sc] by (auto simp: 1 keys_def)
  from survivors_cong [OF this]
  have 2: "survivors (keys (classes s1) @ ?ns) ?cm = survivors (map fst ?sc @ ?ns) ?cm" .
  from load_compat_survivors [OF co] have "classes s2 = classes s1 @ survivors (map fst ?sc @ ?ns) ?cm"
    by (simp add: 2)
  then show ?thesis
    by (simp add: cls 1 registered_def it survivors_append)
qed

text \<open>
  C5, as stated, fails. With one built-in in the caller's namespace and two surviving
  plugin classes, the dictionary returned holds the two plugin classes only; the
  caller's namespace, updated in place, holds three entries. They are not the same
  mapping.
\<close>

theorem returned_registry_counterexample:
  "result (load_plugins demo_rt ''extractor'' ''IE'' (Some builtin_namespace)) =
     Inr [(''FooIE'', PyClass ''FooIE'' ''yt_dlp_plugins.extractor.foo'' 2),
          (''LateIE'', PyClass ''LateIE'' ''yt_dlp_plugins.extractor.late'' 5)]
   \<and> caller_namespace (load_plugins demo_rt ''extractor'' ''IE'' (Some builtin_namespace)) =
     Some [(''YoutubeIE'', PyClass ''YoutubeIE'' ''yt_dlp.extractor.youtube'' 0),
           (''FooIE'', PyClass ''FooIE'' ''yt_dlp_plugins.extractor.foo'' 2),
           (''LateIE'', PyClass ''LateIE'' ''yt_dlp_plugins.extractor.late'' 5)]"
  by code_simp

text \<open>
  C5, amended. When \<^verbatim>\<open>load_plugins\<close> returns for a non-empty namespace of the caller,
  the dictionary returned is exactly that of the surviving candidates: the candidates
  in registration order, without those whose name is in the namespace and without
  those whose name an earlier candidate has. So a name of the namespace is not in it,
  any other name is bound to its earliest candidate, its names are pairwise different
  and every entry is a candidate. The caller's namespace is updated in place and is
  afterwards the entries it had, followed by the returned ones.
\<close>

theorem load_plugins_returns_new_classes:
  assumes "result (load_plugins rt category suffix (Some d)) = Inr cls"
    and "d \<noteq> []"
  shows "cls = survivors (keys d) (registered rt category suffix)
       \<and> map_of cls k =
           (if k \<in> set (keys d) then None else map_of (registered rt category suffix) k)
       \<and> caller_namespace (load_plugins rt category suffix (Some d)) = Some (d @ cls)
       \<and> distinct (keys cls)
       \<and> set (keys cls) \<inter> set (keys d) = {}
       \<and> set cls \<subseteq> set (registered rt category suffix)"
proof -
  from load_plugins_fresh [OF assms(1)] have f: "distinct (keys cls)" "set (keys cls) \<inter> set (keys d) = {}"
    by (simp_all add: fresh_for_def namespace_dict_def)
  have m: "map_of cls k' =
             (if k' \<in> set (keys d) then None else map_of (registered rt category suffix) k')" for k'
    using load_plugins_first_wins [OF assms(1), of k'] by (simp add: namespace_dict_def)
  have "(k', v) \<in> set (registered rt category suffix)" if "(k', v) \<in> set cls" for k' v
  proof -
    from f(1) that have "map_of cls k' = Some v"
      by (simp add: keys_def)
    with m [of k'] have "map_of (registered rt category suffix) k' = Some v"
      by (simp split: if_splits)
    then show ?thesis
      by (rule map_of_SomeD)
  qed
  then have sub: "set cls \<subseteq> set (registered rt category suffix)"
    by auto
  have ex: "cls = survivors (keys d) (registered rt category suffix)"
    using load_plugins_survivors [OF assms(1)] by (simp add: namespace_dict_def)
  have ns: "caller_namespace (load_plugins rt category suffix (Some d)) = Some (d @ cls)"
    using load_plugins_caller_namespace [OF assms(1)] assms(2) by simp
  from ex m [of k] ns f sub show ?thesis
    by blast
qed

theorem load_plugins_returns_new_classes_witness:
  "result (load_plugins demo_rt ''extractor'' ''IE'' (Some builtin_namespace)) = Inr demo_classes
   \<and> builtin_namespace \<noteq> []
   \<and> demo_classes = survivors (keys builtin_namespace) (registered demo_rt ''extractor'' ''IE'')
   \<and> survivors (keys builtin_namespace) (registered demo_rt ''extractor'' ''IE'') =
       [(''FooIE'', PyClass ''FooIE'' ''yt_dlp_plugins.extractor.foo'' 2),
        (''LateIE'', PyClass ''LateIE'' ''yt_dlp_plugins.extractor.late'' 5)]
   \<and> caller_namespace (load_plugins demo_rt ''extractor'' ''IE'' (Some builtin_namespace))
       = Some (builtin_namespace @ demo_classes)
   \<and> set (keys demo_classes) \<inter> set (keys builtin_namespace) = {}"
proof -
  have r: "result (load_plugins demo_rt ''extractor'' ''IE'' (Some builtin_namespace)) = Inr demo_classes"
    by code_simp
  have n: "builtin_namespace \<noteq> []"
    by (simp add: builtin_namespace_def)
  have s: "survivors (keys builtin_namespace) (registered demo_rt ''extractor'' ''IE'') =
       [(''FooIE'', PyClass ''FooIE'' ''yt_dlp_plugins.extractor.foo'' 2),
        (''LateIE'', PyClass ''LateIE'' ''yt_dlp_plugins.extractor.late'' 5)]"
    by code_simp
  from load_plugins_returns_new_classes [OF r n] r n s show ?thesis
    by blast
qed

subsection \<open>Failure isolation\<close>







lemma compat_without_failures:
  "compat_absent_or_loaded (without_failures rt) category = compat_absent_or_loaded rt category"
  by (simp add: compat_absent_or_loaded_def without_failures_def)




end
